theory Spec2Isabelle
  imports Complex_Main "HOL-Library.Log_Nat"
begin

section \<open>The proof pipeline of \<open>generate_test_case.py\<close>\<close>

text \<open>
  The script compiles a Cairo program, runs it, derives the prover's parameters from the
  number of steps of the run, and calls the prover. The model below follows the script
  function by function. Everything the script asks of its surroundings (the file system,
  the three external programs, the C library's logarithm, the JSON encoder) is a field of
  an environment record, so that every theorem holds whatever these do.

  Exceptions are values of the type \<open>error\<close>; a function that can raise returns
  \<open>error + 'a\<close> with \<open>Inl\<close> for the exception. A function that acts on the
  outside world returns, next to its result, the list of the actions it performed, in
  order.
\<close>

subsection \<open>Exceptions\<close>

text \<open>
  The script raises \<open>ValueError\<close> in three places: at the end of the loop of
  \<open>get_nb_steps\<close>, in \<open>int(...)\<close> on a string longer than the interpreter allows, and
  in \<open>math.log\<close> outside its domain.
\<close>

datatype value_error = Steps_not_found | Int_limit_exceeded | Math_domain_error

datatype error =
    ValueError value_error
  | RuntimeError
  | TypeError
  | OSError
  | UnicodeDecodeError
  | CalledProcessError int

subsection \<open>The step extractor: \<open>get_nb_steps\<close>\<close>

text \<open>
  The report is a Python \<open>str\<close>, a sequence of Unicode code points; it is modelled as
  the list of its code points. \<open>ascii\<close> turns a literal into such a list.
\<close>

type_synonym pystr = "nat list"

definition ascii :: "string \<Rightarrow> pystr" where
  "ascii s = map of_char s"

text \<open>
  The line boundaries of \<open>str.splitlines\<close>: line feed, vertical tab, form feed,
  carriage return, the three separators \<open>0x1C\<close> to \<open>0x1E\<close>, next line \<open>0x85\<close>, and
  the line and paragraph separators \<open>0x2028\<close> and \<open>0x2029\<close>. A carriage return
  followed by a line feed counts as one boundary.
\<close>

definition is_linebreak :: "nat \<Rightarrow> bool" where
  "is_linebreak c \<longleftrightarrow> c \<in> {10, 11, 12, 13, 28, 29, 30, 133, 8232, 8233}"

text \<open>
  \<open>splitlines_from cur s\<close> splits \<open>s\<close>, where \<open>cur\<close> holds the characters of the
  line being read, last one first. A line boundary closes the line, also an empty one;
  the end of the text closes it only when it is not empty.
\<close>

fun splitlines_from :: "pystr \<Rightarrow> pystr \<Rightarrow> pystr list" where
  "splitlines_from cur [] = (if cur = [] then [] else [rev cur])"
| "splitlines_from cur [c] =
     (if is_linebreak c then [rev cur] else [rev (c # cur)])"
| "splitlines_from cur (c # d # cs) =
     (if c = 13 \<and> d = 10 then rev cur # splitlines_from [] cs
      else if is_linebreak c then rev cur # splitlines_from [] (d # cs)
      else splitlines_from (c # cur) (d # cs))"

definition splitlines :: "pystr \<Rightarrow> pystr list" where
  "splitlines s = splitlines_from [] s"

text \<open>
  The decimal digits are those of the interpreter's Unicode database: \<open>decimal c\<close> is
  the digit value of the code point \<open>c\<close>, and \<open>None\<close> when \<open>c\<close> is not a decimal
  digit. The class \<open>\d\<close> of a \<open>str\<close> pattern and the conversion \<open>int(...)\<close> both read
  this table, which is a parameter of the model. The table of the Unicode version 14 is
  \<open>unicode_decimal\<close> below.
\<close>

definition is_digit :: "(nat \<Rightarrow> nat option) \<Rightarrow> nat \<Rightarrow> bool" where
  "is_digit decimal c \<longleftrightarrow> decimal c \<noteq> None"

definition digit_val :: "(nat \<Rightarrow> nat option) \<Rightarrow> nat \<Rightarrow> nat" where
  "digit_val decimal c = (case decimal c of Some v \<Rightarrow> v | None \<Rightarrow> 0)"

text \<open>The value of a string of decimal digits; Python's integers are unbounded, as \<open>int\<close> is.\<close>

definition int_of_digits :: "(nat \<Rightarrow> nat option) \<Rightarrow> pystr \<Rightarrow> int" where
  "int_of_digits decimal ds = int (foldl (\<lambda>n c. 10 * n + digit_val decimal c) 0 ds)"

text \<open>
  \<open>int(...)\<close> on a string of decimal digits. The interpreter refuses a string with more
  digits than its limit \<open>sys.get_int_max_str_digits()\<close>, leading zeros included, and
  raises \<open>ValueError\<close>. The limit is 4300 unless changed; it is 0 when the limit is
  switched off, as in the interpreters that have none, and the interpreter accepts no
  other limit below 640.
\<close>

definition int_from_str :: "(nat \<Rightarrow> nat option) \<Rightarrow> nat \<Rightarrow> pystr \<Rightarrow> error + int" where
  "int_from_str decimal max_str_digits ds =
     (if 0 < max_str_digits \<and> max_str_digits < length ds
      then Inl (ValueError Int_limit_exceeded)
      else Inr (int_of_digits decimal ds))"

definition steps_prefix :: pystr where
  "steps_prefix = ascii ''Number of steps: ''"

text \<open>
  \<open>re.match(r"Number of steps: (\d+).*", line)\<close>: the match is anchored at the start of
  the line, \<open>\d+\<close> is greedy and takes the longest run of digits, and \<open>.*\<close> accepts
  whatever follows. The result is group 1 of the match, \<open>None\<close> when the line does not
  match.
\<close>

definition re_match_steps :: "(nat \<Rightarrow> nat option) \<Rightarrow> pystr \<Rightarrow> pystr option" where
  "re_match_steps decimal line =
     (if take (length steps_prefix) line = steps_prefix
      then (let ds = takeWhile (is_digit decimal) (drop (length steps_prefix) line)
            in if ds = [] then None else Some ds)
      else None)"

text \<open>
  The loop over the lines: at the first match it returns what \<open>int\<close> returns or raises
  what \<open>int\<close> raises, and after the last line it raises.
\<close>

fun scan_lines :: "(nat \<Rightarrow> nat option) \<Rightarrow> nat \<Rightarrow> pystr list \<Rightarrow> error + int" where
  "scan_lines decimal max_str_digits [] = Inl (ValueError Steps_not_found)"
| "scan_lines decimal max_str_digits (line # rest) =
     (case re_match_steps decimal line of
        Some ds \<Rightarrow> int_from_str decimal max_str_digits ds
      | None \<Rightarrow> scan_lines decimal max_str_digits rest)"

definition get_nb_steps :: "(nat \<Rightarrow> nat option) \<Rightarrow> nat \<Rightarrow> pystr \<Rightarrow> error + int" where
  "get_nb_steps decimal max_str_digits run_stdout =
     scan_lines decimal max_str_digits (splitlines run_stdout)"

subsection \<open>The FRI schedule: \<open>compute_fri_step_list\<close>\<close>

text \<open>
  The script computes \<open>math.ceil(math.log(x, 2))\<close> in double-precision floating point;
  \<open>math.log\<close> raises \<open>ValueError\<close> when \<open>x\<close> is not positive. The rounded
  logarithm is the parameter \<open>ceil_log\<close> of the model. The rest is integer arithmetic:
  \<open>divmod\<close> is floored division, which is \<open>div\<close> and \<open>mod\<close> on \<open>int\<close>, and
  \<open>[4] * q\<close> is the empty list when \<open>q\<close> is negative.
\<close>

definition compute_fri_step_list :: "(int \<Rightarrow> int) \<Rightarrow> int \<Rightarrow> int \<Rightarrow> error + int list" where
  "compute_fri_step_list ceil_log nb_steps last_layer_degree_bound =
     (if nb_steps \<le> 0 \<or> last_layer_degree_bound \<le> 0
      then Inl (ValueError Math_domain_error)
      else
        let program_n_steps_log = ceil_log nb_steps;
            last_layer_degree_bound_log = ceil_log last_layer_degree_bound;
            sigma_fri_step_list = program_n_steps_log + 4 - last_layer_degree_bound_log;
            q = sigma_fri_step_list div 4;
            r = sigma_fri_step_list mod 4;
            fri_step_list = replicate (nat q) 4
        in Inr (if r > 0 then fri_step_list @ [r] else fri_step_list))"

text \<open>
  The exact value \<open>\<lceil>log\<^sub>2 n\<rceil>\<close> for a positive integer, computed on integers. The
  floating-point computation of the script agrees with it wherever the quotient of the
  two rounded logarithms falls on the right side of the integer.
\<close>

function exact_ceil_log2 :: "int \<Rightarrow> int" where
  "exact_ceil_log2 n = (if n \<le> 1 then 0 else 1 + exact_ceil_log2 ((n + 1) div 2))"
  by pat_completeness auto
termination
  by (relation "measure nat") auto

declare exact_ceil_log2.simps [simp del]

subsection \<open>Paths, command lines and documents\<close>

text \<open>
  A \<open>pathlib.Path\<close> is the list of its parts; \<open>dir / name\<close> appends one part, and
  the name of a path is its last part. The stem drops the last suffix of the name, as
  \<open>PurePath.stem\<close> does: the name is cut at its last dot unless that dot is its first
  or its last character.
\<close>

type_synonym path = "string list"

definition joinpath :: "path \<Rightarrow> string \<Rightarrow> path" where
  "joinpath dir name = dir @ [name]"

definition path_name :: "path \<Rightarrow> string" where
  "path_name p = (if p = [] then [] else last p)"

definition rfind_dot :: "string \<Rightarrow> nat option" where
  "rfind_dot name =
     (if CHR ''.'' \<in> set name
      then Some (length name - 1 - length (takeWhile (\<lambda>c. c \<noteq> CHR ''.'') (rev name)))
      else None)"

definition stem :: "path \<Rightarrow> string" where
  "stem p =
     (let name = path_name p
      in case rfind_dot name of
           None \<Rightarrow> name
         | Some i \<Rightarrow> if 0 < i \<and> i < length name - 1 then take i name else name)"

text \<open>
  An argument of a command line: a literal string, a path, or an f-string of the form
  \<open>--key={path}\<close>.
\<close>

datatype arg = Lit string | PathArg path | Opt string path

text \<open>The result of \<open>subprocess.run\<close> with \<open>capture_output=True\<close>.\<close>

record completed_process =
  returncode :: int
  stdout :: string
  stderr :: string

text \<open>The values the script hands to \<open>json.dump\<close>.\<close>

datatype json =
    JBool bool
  | JInt int
  | JStr string
  | JList "json list"
  | JObj "(string \<times> json) list"

text \<open>What \<open>shutil.copy2\<close> does: it copies, raises \<open>SameFileError\<close>, or fails otherwise.\<close>

datatype copy_outcome = Copied | Same_file | Copy_failed

text \<open>The lines the script prints.\<close>

datatype message =
    Run_failed pystr
  | Could_not_prove string
  | Proof_generated path

text \<open>The actions of the script on the outside world.\<close>

datatype event =
    Ev_mkdir path
  | Ev_copy path path
  | Ev_exec "arg list"
  | Ev_write path string
  | Ev_print message

text \<open>
  The surroundings of a run. \<open>subprocess_run\<close> is \<open>None\<close> when the program cannot be
  started; \<open>decode_utf8\<close> gives the text of captured bytes and is \<open>None\<close> on bytes
  that are not UTF-8; \<open>decimal_value\<close> is the table of the decimal digits and
  \<open>int_max_str_digits\<close> the limit of \<open>int(...)\<close>; \<open>ceil_log\<close> is
  \<open>math.ceil(math.log(x, 2))\<close> on a positive integer; \<open>json_dump\<close> is the text
  written by \<open>json.dump(..., indent=2)\<close>; \<open>open_fails\<close> says that a file cannot be
  opened for writing.
\<close>

record env =
  is_file :: "path \<Rightarrow> bool"
  mkdir_fails :: "path \<Rightarrow> bool"
  copy2 :: "path \<Rightarrow> path \<Rightarrow> copy_outcome"
  subprocess_run :: "arg list \<Rightarrow> completed_process option"
  decode_utf8 :: "string \<Rightarrow> pystr option"
  decimal_value :: "nat \<Rightarrow> nat option"
  int_max_str_digits :: nat
  ceil_log :: "int \<Rightarrow> int"
  json_dump :: "json \<Rightarrow> string"
  open_fails :: "path \<Rightarrow> bool"

text \<open>
  The outcome of a function with effects: its result or exception, and its actions.
  \<open>and_then m f\<close> runs \<open>f\<close> on the result of \<open>m\<close>; an exception of \<open>m\<close> ends the run.
\<close>

type_synonym 'a outcome = "(error + 'a) \<times> event list"

definition and_then :: "'a outcome \<Rightarrow> ('a \<Rightarrow> 'b outcome) \<Rightarrow> 'b outcome" where
  "and_then m f =
     (case fst m of
        Inl err \<Rightarrow> (Inl err, snd m)
      | Inr x \<Rightarrow> (fst (f x), snd m @ snd (f x)))"

subsection \<open>The stages\<close>

record ExecutionArtifacts =
  public_input :: path
  private_input :: path
  memory :: path
  trace :: path
  nb_steps :: int

definition compile_command :: "path \<Rightarrow> path \<Rightarrow> arg list" where
  "compile_command program_path output_path =
     [Lit ''cairo-compile'', PathArg program_path, Lit ''--output'', PathArg output_path,
      Lit ''--proof_mode'']"

text \<open>\<open>subprocess.run(..., check=True)\<close> raises on a non-zero exit status.\<close>

definition compile_cairo_program :: "env \<Rightarrow> path \<Rightarrow> path \<Rightarrow> unit outcome" where
  "compile_cairo_program e program_path output_path =
     (let command = compile_command program_path output_path
      in case subprocess_run e command of
           None \<Rightarrow> (Inl OSError, [Ev_exec command])
         | Some result \<Rightarrow>
             if returncode result \<noteq> 0
             then (Inl (CalledProcessError (returncode result)), [Ev_exec command])
             else (Inr (), [Ev_exec command]))"

definition run_command :: "path \<Rightarrow> path \<Rightarrow> string \<Rightarrow> path option \<Rightarrow> arg list" where
  "run_command compiled_program_path output_dir program_name program_input =
     (let public_input_file = joinpath output_dir (program_name @ ''_public_input.json'');
          private_input_file = joinpath output_dir (program_name @ ''_private_input.json'');
          memory_file = joinpath output_dir (program_name @ ''_memory.bin'');
          trace_file = joinpath output_dir (program_name @ ''_trace.bin'')
      in [Lit ''cairo-run'',
          Opt ''--program='' compiled_program_path,
          Lit ''--layout=starknet_with_keccak'',
          Opt ''--air_public_input='' public_input_file,
          Opt ''--air_private_input='' private_input_file,
          Opt ''--trace_file='' trace_file,
          Opt ''--memory_file='' memory_file,
          Lit ''--print_output'',
          Lit ''--proof_mode'',
          Lit ''--print_info'']
         @ (case program_input of
              Some p \<Rightarrow> [Opt ''--program_input='' p]
            | None \<Rightarrow> []))"

definition run_cairo_program ::
  "env \<Rightarrow> path \<Rightarrow> path \<Rightarrow> string \<Rightarrow> path option \<Rightarrow> ExecutionArtifacts outcome" where
  "run_cairo_program e compiled_program_path output_dir program_name program_input =
     (let public_input_file = joinpath output_dir (program_name @ ''_public_input.json'');
          private_input_file = joinpath output_dir (program_name @ ''_private_input.json'');
          memory_file = joinpath output_dir (program_name @ ''_memory.bin'');
          trace_file = joinpath output_dir (program_name @ ''_trace.bin'');
          command = run_command compiled_program_path output_dir program_name program_input
      in case subprocess_run e command of
           None \<Rightarrow> (Inl OSError, [Ev_exec command])
         | Some result \<Rightarrow>
             if returncode result \<noteq> 0
             then (case decode_utf8 e (stderr result) of
                     None \<Rightarrow> (Inl UnicodeDecodeError, [Ev_exec command])
                   | Some msg \<Rightarrow>
                       (Inl (CalledProcessError (returncode result)),
                        [Ev_exec command, Ev_print (Run_failed msg)]))
             else (case decode_utf8 e (stdout result) of
                     None \<Rightarrow> (Inl UnicodeDecodeError, [Ev_exec command])
                   | Some run_stdout \<Rightarrow>
                       (case get_nb_steps (decimal_value e) (int_max_str_digits e)
                               run_stdout of
                          Inl err \<Rightarrow> (Inl err, [Ev_exec command])
                        | Inr n \<Rightarrow>
                            (Inr \<lparr>public_input = public_input_file,
                                  private_input = private_input_file,
                                  memory = memory_file,
                                  trace = trace_file,
                                  nb_steps = n\<rparr>,
                             [Ev_exec command]))))"

definition config :: json where
  "config =
     JObj [(''cached_lde_config'',
              JObj [(''store_full_lde'', JBool False), (''use_fft_for_eval'', JBool False)]),
           (''constraint_polynomial_task_size'', JInt 256),
           (''n_out_of_memory_merkle_layers'', JInt 1),
           (''table_prover_n_tasks_per_segment'', JInt 32)]"

definition parameters :: "int list \<Rightarrow> int \<Rightarrow> json" where
  "parameters fri_step_list last_layer_degree_bound =
     JObj [(''field'', JStr ''PrimeField0''),
           (''stark'',
              JObj [(''fri'',
                       JObj [(''fri_step_list'', JList (map JInt fri_step_list)),
                             (''last_layer_degree_bound'', JInt last_layer_degree_bound),
                             (''n_queries'', JInt 18),
                             (''proof_of_work_bits'', JInt 24)]),
                    (''log_n_cosets'', JInt 4)]),
           (''use_extension_field'', JBool False)]"

definition generate_prover_config :: "env \<Rightarrow> ExecutionArtifacts \<Rightarrow> path \<Rightarrow> (path \<times> path) outcome" where
  "generate_prover_config e artifacts output_dir =
     (let config_file = joinpath output_dir ''cpu_air_prover_config.json'';
          parameter_file = joinpath output_dir ''cpu_air_params.json'';
          last_layer_degree_bound = 64
      in case compute_fri_step_list (ceil_log e) (nb_steps artifacts) last_layer_degree_bound of
           Inl err \<Rightarrow> (Inl err, [])
         | Inr fri_step_list \<Rightarrow>
             if open_fails e config_file then (Inl OSError, [])
             else if open_fails e parameter_file
             then (Inl OSError, [Ev_write config_file (json_dump e config)])
             else (Inr (config_file, parameter_file),
                   [Ev_write config_file (json_dump e config),
                    Ev_write parameter_file
                      (json_dump e (parameters fri_step_list last_layer_degree_bound))]))"

definition prove_command :: "ExecutionArtifacts \<Rightarrow> path \<Rightarrow> path \<Rightarrow> path \<Rightarrow> arg list" where
  "prove_command artifacts prover_config prover_parameters output_proof_path =
     [Lit ''cpu_air_prover'',
      Opt ''--out_file='' output_proof_path,
      Opt ''--private_input_file='' (private_input artifacts),
      Opt ''--public_input_file='' (public_input artifacts),
      Opt ''--prover_config_file='' prover_config,
      Opt ''--parameter_file='' prover_parameters]"

definition prove_cairo_program ::
  "env \<Rightarrow> ExecutionArtifacts \<Rightarrow> path \<Rightarrow> path \<Rightarrow> path \<Rightarrow> unit outcome" where
  "prove_cairo_program e artifacts prover_config prover_parameters output_proof_path =
     (let command = prove_command artifacts prover_config prover_parameters output_proof_path
      in case subprocess_run e command of
           None \<Rightarrow> (Inl OSError, [Ev_exec command])
         | Some result \<Rightarrow>
             if returncode result \<noteq> 0
             then (Inl (CalledProcessError (returncode result)),
                   [Ev_exec command, Ev_print (Could_not_prove (stderr result))])
             else (Inr (), [Ev_exec command]))"

subsection \<open>The driver: \<open>main\<close>\<close>

text \<open>
  The arguments of the command line: \<open>program_input\<close> is \<open>None\<close> when the option is
  absent or empty, \<open>output_dir\<close> is \<open>None\<close> when the option is absent, and then
  \<open>Path(None)\<close> raises \<open>TypeError\<close>.
\<close>

record args =
  program :: path
  program_input :: "path option"
  output_dir :: "path option"

text \<open>\<open>output_dir.mkdir(parents=True, exist_ok=True)\<close>.\<close>

definition make_output_dir :: "env \<Rightarrow> path \<Rightarrow> unit outcome" where
  "make_output_dir e dir =
     (if mkdir_fails e dir then (Inl OSError, []) else (Inr (), [Ev_mkdir dir]))"

text \<open>
  The copy of the program into the output directory, with its \<open>try\<close>: the destination
  is the directory joined with the name of the program, and \<open>SameFileError\<close> is caught.
\<close>

definition copy_program :: "env \<Rightarrow> path \<Rightarrow> path \<Rightarrow> unit outcome" where
  "copy_program e program_path dir =
     (let dst = joinpath dir (path_name program_path)
      in case copy2 e program_path dst of
           Copied \<Rightarrow> (Inr (), [Ev_copy program_path dst])
         | Same_file \<Rightarrow> (Inr (), [])
         | Copy_failed \<Rightarrow> (Inl OSError, []))"

text \<open>The driver calls \<open>run_cairo_program\<close> without the program input.\<close>

definition main :: "env \<Rightarrow> args \<Rightarrow> unit outcome" where
  "main e a =
     (let program_path = program a
      in if \<not> is_file e program_path then (Inl RuntimeError, [])
         else if (case program_input a of Some p \<Rightarrow> \<not> is_file e p | None \<Rightarrow> False)
         then (Inl RuntimeError, [])
         else
           let program_name = stem program_path
           in case output_dir a of
                None \<Rightarrow> (Inl TypeError, [])
              | Some dir \<Rightarrow>
                  and_then (make_output_dir e dir) (\<lambda>_.
                  and_then (copy_program e program_path dir) (\<lambda>_.
                  let compiled_program_path = joinpath dir (program_name @ ''_compiled.json'')
                  in
                  and_then (compile_cairo_program e program_path compiled_program_path) (\<lambda>_.
                  and_then (run_cairo_program e compiled_program_path dir program_name None)
                    (\<lambda>artifacts.
                  and_then (generate_prover_config e artifacts dir)
                    (\<lambda>(prover_config, prover_params).
                  let proof_file = joinpath dir (program_name @ ''_proof.json'')
                  in
                  and_then
                    (prove_cairo_program e artifacts prover_config prover_params proof_file)
                    (\<lambda>_. (Inr (), [Ev_print (Proof_generated proof_file)]))))))))"

subsection \<open>Notions used by the properties\<close>

text \<open>
  The pattern of the specification, \<open>Number of steps: <digits>\<close>: a line matches when it
  starts with the prefix followed by at least one decimal digit. The digits of a line are
  the longest run of decimal digits after the prefix, and the first matching line of a
  list of lines is the first one that matches.
\<close>

definition matches_steps_pattern :: "(nat \<Rightarrow> nat option) \<Rightarrow> pystr \<Rightarrow> bool" where
  "matches_steps_pattern decimal line \<longleftrightarrow>
     (\<exists>ds rest. ds \<noteq> [] \<and> list_all (is_digit decimal) ds \<and>
                line = ascii ''Number of steps: '' @ ds @ rest)"

definition digit_run :: "(nat \<Rightarrow> nat option) \<Rightarrow> pystr \<Rightarrow> pystr" where
  "digit_run decimal line =
     takeWhile (is_digit decimal) (drop (length (ascii ''Number of steps: '')) line)"

definition first_matching_line :: "(nat \<Rightarrow> nat option) \<Rightarrow> pystr list \<Rightarrow> pystr option" where
  "first_matching_line decimal ls = find (matches_steps_pattern decimal) ls"

text \<open>A string of digits is too long for \<open>int(...)\<close> when the limit is on and exceeded.\<close>

definition exceeds_limit :: "nat \<Rightarrow> pystr \<Rightarrow> bool" where
  "exceeds_limit max_str_digits ds \<longleftrightarrow> 0 < max_str_digits \<and> max_str_digits < length ds"

text \<open>
  The files a command line asks its program to write: the path after \<open>--output\<close> of the
  compiler, the four artifact options of the runner, and \<open>--out_file\<close> of the prover.
\<close>

fun output_paths :: "arg list \<Rightarrow> path list" where
  "output_paths [] = []"
| "output_paths (Lit k # PathArg p # rest) =
     (if k = ''--output'' then p # output_paths rest else output_paths (PathArg p # rest))"
| "output_paths (Opt k p # rest) =
     (if k \<in> set [''--air_public_input='', ''--air_private_input='', ''--trace_file='',
                    ''--memory_file='', ''--out_file='']
      then p # output_paths rest else output_paths rest)"
| "output_paths (_ # rest) = output_paths rest"

text \<open>The files an action creates, and the files a run creates, in order.\<close>

fun created_by :: "event \<Rightarrow> path list" where
  "created_by (Ev_copy src dst) = [dst]"
| "created_by (Ev_exec command) = output_paths command"
| "created_by (Ev_write p text) = [p]"
| "created_by (Ev_mkdir p) = []"
| "created_by (Ev_print m) = []"

definition created_files :: "event list \<Rightarrow> path list" where
  "created_files events = concat (map created_by events)"

text \<open>
  The naming convention of the specification, \<open><base>_<kind>.<ext>\<close>: the file name
  starts with the base name and an underscore, followed by a kind that is not empty, a
  dot and an extension that is not empty.
\<close>

definition named_by_convention :: "string \<Rightarrow> string \<Rightarrow> bool" where
  "named_by_convention base fname =
     (let rest = drop (length base + 1) fname;
          kind = takeWhile (\<lambda>c. c \<noteq> CHR ''.'') rest
      in take (length base + 1) fname = base @ ''_'' \<and> kind \<noteq> [] \<and>
         length kind + 1 < length rest)"

text \<open>The actions that start the prover, and those that write a file.\<close>

fun runs_prover :: "event \<Rightarrow> bool" where
  "runs_prover (Ev_exec (Lit c # rest)) = (c = ''cpu_air_prover'')"
| "runs_prover _ = False"

fun writes_file :: "event \<Rightarrow> bool" where
  "writes_file (Ev_write p text) = True"
| "writes_file _ = False"

subsection \<open>An environment for the examples\<close>

text \<open>
  The decimal digits of the Unicode version 14, the one of CPython 3.11: they come in 66
  runs of ten consecutive code points with the values 0 to 9, and \<open>decimal_zeros\<close>
  lists the first code point of each run.
\<close>

definition decimal_zeros :: "nat list" where
  "decimal_zeros =
    [48, 1632, 1776, 1984, 2406, 2534, 2662, 2790, 2918, 3046, 3174, 3302, 3430, 3558,
     3664, 3792, 3872, 4160, 4240, 6112, 6160, 6470, 6608, 6784, 6800, 6992, 7088,
     7232, 7248, 42528, 43216, 43264, 43472, 43504, 43600, 44016, 65296, 66720, 68912,
     69734, 69872, 69942, 70096, 70384, 70736, 70864, 71248, 71360, 71472, 71904,
     72016, 72784, 73040, 73120, 92768, 92864, 93008, 120782, 120792, 120802, 120812,
     120822, 123200, 123632, 125264, 130032]"

definition unicode_decimal :: "nat \<Rightarrow> nat option" where
  "unicode_decimal c =
     (case find (\<lambda>z. z \<le> c \<and> c < z + 10) decimal_zeros of
        Some z \<Rightarrow> Some (c - z)
      | None \<Rightarrow> None)"

text \<open>The UTF-8 decoding of ASCII bytes; the decoder of the examples refuses other bytes.\<close>

definition decode_ascii :: "string \<Rightarrow> pystr option" where
  "decode_ascii bytes =
     (if list_all (\<lambda>b. (of_char b :: nat) < 128) bytes then Some (ascii bytes) else None)"

text \<open>
  The layout of \<open>json.dump(..., indent=2)\<close> for the documents of the script: integers
  in decimal, strings that need no escaping between double quotes, one element or member
  per line.
\<close>

fun digits_of_nat :: "nat \<Rightarrow> string" where
  "digits_of_nat n =
     (if n < 10 then [char_of (48 + n)]
      else digits_of_nat (n div 10) @ [char_of (48 + n mod 10)])"

declare digits_of_nat.simps [simp del]

definition str_of_int :: "int \<Rightarrow> string" where
  "str_of_int i =
     (if i < 0 then CHR ''-'' # digits_of_nat (nat (- i)) else digits_of_nat (nat i))"

definition newline_indent :: "nat \<Rightarrow> string" where
  "newline_indent level = CHR 0x0A # replicate (2 * level) CHR '' ''"

fun join_with :: "string \<Rightarrow> string list \<Rightarrow> string" where
  "join_with sep [] = []"
| "join_with sep [x] = x"
| "join_with sep (x # y # ys) = x @ sep @ join_with sep (y # ys)"

fun json_dumps :: "nat \<Rightarrow> json \<Rightarrow> string"
  and json_items :: "nat \<Rightarrow> json list \<Rightarrow> string list"
  and json_members :: "nat \<Rightarrow> (string \<times> json) list \<Rightarrow> string list" where
  "json_dumps level (JBool b) = (if b then ''true'' else ''false'')"
| "json_dumps level (JInt i) = str_of_int i"
| "json_dumps level (JStr s) = [CHR 0x22] @ s @ [CHR 0x22]"
| "json_dumps level (JList xs) =
     (if xs = [] then ''[]''
      else ''['' @ newline_indent (level + 1)
           @ join_with ('','' @ newline_indent (level + 1)) (json_items (level + 1) xs)
           @ newline_indent level @ '']'')"
| "json_dumps level (JObj kvs) =
     (if kvs = [] then ''{}''
      else ''{'' @ newline_indent (level + 1)
           @ join_with ('','' @ newline_indent (level + 1)) (json_members (level + 1) kvs)
           @ newline_indent level @ ''}'')"
| "json_items level [] = []"
| "json_items level (x # xs) = json_dumps level x # json_items level xs"
| "json_members level [] = []"
| "json_members level ((k, v) # kvs) =
     ([CHR 0x22] @ k @ [CHR 0x22] @ '': '' @ json_dumps level v) # json_members level kvs"

text \<open>
  External programs that all exit with status 0; the runner prints \<open>report\<close>, the
  others print nothing.
\<close>

definition tools_succeed :: "string \<Rightarrow> arg list \<Rightarrow> completed_process option" where
  "tools_succeed report command =
     Some \<lparr>returncode = 0,
           stdout = (if take 1 command = [Lit ''cairo-run''] then report else []),
           stderr = []\<rparr>"

text \<open>
  External programs of which the runner exits with status 1 and the others with
  status 0.
\<close>

definition runner_fails :: "arg list \<Rightarrow> completed_process option" where
  "runner_fails command =
     Some \<lparr>returncode = (if take 1 command = [Lit ''cairo-run''] then 1 else 0),
           stdout = [],
           stderr = (if take 1 command = [Lit ''cairo-run''] then ''Error'' else [])\<rparr>"

text \<open>
  A run on the program \<open>fib.cairo\<close> into the directory \<open>out\<close>, where the file system
  never fails, the output of the programs is ASCII, the limit of \<open>int(...)\<close> is the
  default 4300, and the logarithm is exact.
\<close>

definition example_env :: "string \<Rightarrow> env" where
  "example_env report =
     \<lparr>is_file = (\<lambda>p. p = [''fib.cairo'']),
      mkdir_fails = (\<lambda>p. False),
      copy2 = (\<lambda>src dst. Copied),
      subprocess_run = tools_succeed report,
      decode_utf8 = decode_ascii,
      decimal_value = unicode_decimal,
      int_max_str_digits = 4300,
      ceil_log = exact_ceil_log2,
      json_dump = json_dumps 0,
      open_fails = (\<lambda>p. False)\<rparr>"

definition example_args :: args where
  "example_args =
     \<lparr>program = [''fib.cairo''], program_input = None, output_dir = Some [''out'']\<rparr>"

text \<open>
  A report of the runner, two reports whose only line matches the pattern with 4301
  digits, and runs that differ from the example in one respect.
\<close>

definition long_report_ones :: pystr where
  "long_report_ones = ascii ''Number of steps: '' @ replicate 4301 49"

definition long_report_nines :: pystr where
  "long_report_nines = ascii ''Number of steps: '' @ replicate 4301 57"

definition example_report :: string where
  "example_report =
     ''Program output:\<newline>  1\<newline>Number of steps: 777 (extra text)\<newline>Done''"

definition runner_fails_env :: env where
  "runner_fails_env = (example_env [])\<lparr>subprocess_run := runner_fails\<rparr>"

definition same_file_env :: env where
  "same_file_env =
     (example_env example_report)
       \<lparr>is_file := (\<lambda>p. p = [''out'', ''fib.cairo'']),
        copy2 := (\<lambda>src dst. if src = dst then Same_file else Copied)\<rparr>"

definition same_file_args :: args where
  "same_file_args =
     \<lparr>program = [''out'', ''fib.cairo''], program_input = None, output_dir = Some [''out'']\<rparr>"

section \<open>Properties\<close>

subsection \<open>The FRI schedule\<close>

text \<open>\<open>exact_ceil_log2\<close> is the ceiling of the binary logarithm.\<close>

lemma exact_ceil_log2_ceillog2:
  "0 \<le> n \<Longrightarrow> exact_ceil_log2 n = int (ceillog2 (nat n))"
proof (induction n rule: exact_ceil_log2.induct)
  case (1 n)
  show ?case
  proof (cases "n \<le> 1")
    case True
    then show ?thesis by (simp add: exact_ceil_log2.simps)
  next
    case False
    have "nat ((n + 1) div 2) = (nat n + 1) div 2"
      using False by (simp add: nat_div_distrib nat_add_distrib)
    then show ?thesis
      using False 1 by (subst exact_ceil_log2.simps, subst ceillog2_rec) simp
  qed
qed

lemma exact_ceil_log2_is_ceiling_log:
  assumes "0 < n"
  shows "exact_ceil_log2 n = \<lceil>log 2 (real_of_int n)\<rceil>"
proof -
  have pos: "0 < nat n" using assms by simp
  have r: "real (nat n) = real_of_int n" using assms by simp
  have "0 \<le> log 2 (real_of_int n)" using assms by simp
  then have "0 \<le> \<lceil>log 2 (real_of_int n)\<rceil>" by linarith
  then show ?thesis
    using assms pos r by (simp add: exact_ceil_log2_ceillog2 ceillog2_def)
qed

lemma exact_ceil_log2_1: "exact_ceil_log2 1 = 0"
  by (simp add: exact_ceil_log2.simps)

lemma exact_ceil_log2_2: "exact_ceil_log2 2 = 1"
  by (simp add: exact_ceil_log2.simps)

lemma exact_ceil_log2_4: "exact_ceil_log2 4 = 2"
  by (simp add: exact_ceil_log2.simps)

lemma exact_ceil_log2_64: "exact_ceil_log2 64 = 6"
  by (simp add: exact_ceil_log2.simps)

lemma exact_ceil_log2_512: "exact_ceil_log2 512 = 9"
  by (simp add: exact_ceil_log2.simps)

lemma exact_ceil_log2_1024: "exact_ceil_log2 1024 = 10"
  by (simp add: exact_ceil_log2.simps)

lemma sum_list_replicate_4: "sum_list (replicate k (4::int)) = 4 * int k"
  by (induction k) simp_all

text \<open>On positive arguments the function returns a list, whatever the rounded logarithm.\<close>

lemma compute_fri_step_list_total:
  assumes "0 < n" "0 < bound"
  shows "\<exists>xs. compute_fri_step_list L n bound = Inr xs"
  using assms by (simp add: compute_fri_step_list_def Let_def)

text \<open>
  When the total that the script computes is not negative, the list sums to it, all its
  elements but the last are 4, and the last is 4 or a remainder between 1 and 3. The total
  is the one computed from the rounded logarithms \<open>L\<close> of the run.
\<close>

lemma compute_fri_step_list_shape:
  assumes "0 < n" "0 < bound" "0 \<le> L n + 4 - L bound"
  shows "\<exists>xs. compute_fri_step_list L n bound = Inr xs \<and>
           sum_list xs = L n + 4 - L bound \<and>
           list_all (\<lambda>x. x = 4) (butlast xs) \<and>
           (xs \<noteq> [] \<longrightarrow> last xs = 4 \<or> 1 \<le> last xs \<and> last xs < 4)"
proof -
  define s where "s = L n + 4 - L bound"
  have s0: "0 \<le> s" using assms s_def by simp
  have q0: "0 \<le> s div 4" using s0 by simp
  have sm: "4 * (s div 4) + s mod 4 = s" by simp
  show ?thesis
  proof (cases "0 < s mod 4")
    case True
    have "compute_fri_step_list L n bound = Inr (replicate (nat (s div 4)) 4 @ [s mod 4])"
      using assms True by (simp add: compute_fri_step_list_def Let_def s_def)
    moreover have "sum_list (replicate (nat (s div 4)) 4 @ [s mod 4]) = s"
      using q0 sm by (simp add: sum_list_replicate_4)
    moreover have "list_all (\<lambda>x. x = 4) (butlast (replicate (nat (s div 4)) (4::int) @ [s mod 4]))"
      by (simp add: list_all_iff)
    moreover have "1 \<le> s mod 4 \<and> s mod 4 < 4" using True by simp
    ultimately show ?thesis unfolding s_def by simp
  next
    case False
    then have m0: "s mod 4 = 0"
      by (smt (verit) pos_mod_sign)
    have "compute_fri_step_list L n bound = Inr (replicate (nat (s div 4)) 4)"
      using assms False by (simp add: compute_fri_step_list_def Let_def s_def)
    moreover have "sum_list (replicate (nat (s div 4)) (4::int)) = s"
      using q0 sm m0 by (simp add: sum_list_replicate_4)
    moreover have "list_all (\<lambda>x. x = 4) (butlast (replicate (nat (s div 4)) (4::int)))"
      by (simp add: list_all_iff butlast_conv_take)
    moreover have "replicate (nat (s div 4)) (4::int) \<noteq> [] \<longrightarrow> last (replicate (nat (s div 4)) (4::int)) = 4"
      by simp
    ultimately show ?thesis unfolding s_def by auto
  qed
qed

text \<open>The examples of the specification, on arguments where the rounded logarithm is exact.\<close>

lemma compute_fri_step_list_examples:
  "compute_fri_step_list exact_ceil_log2 1024 64 = Inr [4, 4]"
  "compute_fri_step_list exact_ceil_log2 512 64 = Inr [4, 3]"
  "compute_fri_step_list exact_ceil_log2 4 64 = Inr []"
  by (simp_all add: compute_fri_step_list_def exact_ceil_log2_1024 exact_ceil_log2_512
      exact_ceil_log2_4 exact_ceil_log2_64 numeral_2_eq_2)

text \<open>
  Claim C1. For positive arguments whose total \<open>\<lceil>log\<^sub>2 n\<rceil> + 4 - \<lceil>log\<^sub>2 bound\<rceil>\<close> is
  positive, the list sums to that total. The script rounds a floating-point quotient
  instead: for \<open>n = 2\<^sup>2\<^sup>9 = 536870912\<close>, \<open>math.log(n, 2)\<close> is the double
  \<open>29.000000000000004\<close>, whose ceiling is 30, while \<open>\<lceil>log\<^sub>2 n\<rceil> = 29\<close>. With that value
  of the rounded logarithm and the bound 64 the total of the claim is 27 and the script
  returns seven times 4, which sums to 28.
\<close>

theorem fri_sum_off_by_one_at_2_pow_29:
  "exact_ceil_log2 536870912 + 4 - exact_ceil_log2 64 = 27 \<and>
   compute_fri_step_list (exact_ceil_log2(536870912 := 30)) 536870912 64
     = Inr [4, 4, 4, 4, 4, 4, 4] \<and>
   sum_list [4, 4, 4, 4, 4, 4, 4 :: int] = 28"
proof -
  have a: "exact_ceil_log2 536870912 = 29" by code_simp
  have b: "replicate 7 (4::int) = [4, 4, 4, 4, 4, 4, 4]" by code_simp
  show ?thesis
    by (simp add: compute_fri_step_list_def a exact_ceil_log2_64 b)
qed

text \<open>
  Claim C2. When the total is zero or negative the schedule is to be empty. For one step
  and the bound 64 the total is \<open>0 + 4 - 6 = -2\<close>; floored division gives the quotient
  \<open>-1\<close> and the remainder 2, and the script returns the list \<open>[2]\<close>.
\<close>

theorem fri_negative_total_not_empty:
  "exact_ceil_log2 1 + 4 - exact_ceil_log2 64 = -2 \<and>
   compute_fri_step_list exact_ceil_log2 1 64 = Inr [2]"
  by (simp add: compute_fri_step_list_def exact_ceil_log2_1 exact_ceil_log2_64)

text \<open>
  Claim C10. For positive arguments every element of the returned list lies between 1
  and 4. When the computed total is negative the list is empty if the floored remainder
  of the total by 4 is zero, and holds that remainder alone otherwise.
\<close>

theorem fri_step_list_elements:
  assumes "0 < n" "0 < bound"
  shows "\<exists>xs. compute_fri_step_list L n bound = Inr xs \<and>
           list_all (\<lambda>x. 1 \<le> x \<and> x \<le> 4) xs \<and>
           (L n + 4 - L bound < 0 \<longrightarrow>
              xs = (if (L n + 4 - L bound) mod 4 = 0 then []
                    else [(L n + 4 - L bound) mod 4]))"
proof -
  define s where "s = L n + 4 - L bound"
  have m: "0 \<le> s mod 4" "s mod 4 < 4" by simp_all
  have neg: "s < 0 \<Longrightarrow> nat (s div 4) = 0" by simp
  show ?thesis
  proof (cases "0 < s mod 4")
    case True
    have "compute_fri_step_list L n bound = Inr (replicate (nat (s div 4)) 4 @ [s mod 4])"
      using assms True by (simp add: compute_fri_step_list_def Let_def s_def)
    moreover have "list_all (\<lambda>x. 1 \<le> x \<and> x \<le> 4) (replicate (nat (s div 4)) 4 @ [s mod 4])"
      using True m by (simp add: list_all_iff)
    moreover have "s < 0 \<longrightarrow> replicate (nat (s div 4)) (4::int) @ [s mod 4] = [s mod 4]"
      using neg by simp
    ultimately show ?thesis using True unfolding s_def by auto
  next
    case False
    then have m0: "s mod 4 = 0" using m by linarith
    have "compute_fri_step_list L n bound = Inr (replicate (nat (s div 4)) 4)"
      using assms False by (simp add: compute_fri_step_list_def Let_def s_def)
    moreover have "list_all (\<lambda>x. 1 \<le> x \<and> x \<le> 4) (replicate (nat (s div 4)) (4::int))"
      by (simp add: list_all_iff)
    moreover have "s < 0 \<longrightarrow> replicate (nat (s div 4)) (4::int) = []"
      using neg by simp
    ultimately show ?thesis using m0 unfolding s_def by auto
  qed
qed

theorem fri_step_list_elements_witness:
  "(0::int) < 2 \<and> (0::int) < 64 \<and> exact_ceil_log2 2 + 4 - exact_ceil_log2 64 = -1 \<and>
   compute_fri_step_list exact_ceil_log2 2 64 = Inr [3] \<and>
   list_all (\<lambda>x. 1 \<le> x \<and> x \<le> 4) [3::int]"
  using fri_step_list_elements [of 2 64 exact_ceil_log2]
  by (simp add: exact_ceil_log2_2 exact_ceil_log2_64)

subsection \<open>The step extractor\<close>

lemma ascii_append: "ascii (a @ b) = ascii a @ ascii b"
  by (simp add: ascii_def)

lemma length_ascii [simp]: "length (ascii s) = length s"
  by (simp add: ascii_def)

text \<open>
  The match of the regular expression, characterised: group 1 is \<open>ds\<close> exactly when
  the line is the prefix, then the digits \<open>ds\<close>, then a rest that does not start with a
  digit; group 1 is the digits of the line; and there is no match exactly when the line
  does not match the pattern.
\<close>

lemma re_match_steps_Some_iff:
  "re_match_steps dec line = Some ds \<longleftrightarrow>
     (\<exists>rest. line = ascii ''Number of steps: '' @ ds @ rest \<and> ds \<noteq> [] \<and>
             list_all (is_digit dec) ds \<and> (rest = [] \<or> \<not> is_digit dec (hd rest)))"
proof
  assume m: "re_match_steps dec line = Some ds"
  let ?tail = "drop (length steps_prefix) line"
  from m have p: "take (length steps_prefix) line = steps_prefix"
    and ds: "ds = takeWhile (is_digit dec) ?tail" and ne: "ds \<noteq> []"
    by (auto simp: re_match_steps_def Let_def split: if_splits)
  have "line = steps_prefix @ ?tail"
    using p by (metis append_take_drop_id)
  moreover have "?tail = ds @ dropWhile (is_digit dec) ?tail"
    using ds by simp
  moreover have "list_all (is_digit dec) ds"
    using ds by (simp add: list_all_iff) (meson set_takeWhileD)
  moreover have "dropWhile (is_digit dec) ?tail = [] \<or>
      \<not> is_digit dec (hd (dropWhile (is_digit dec) ?tail))"
    using hd_dropWhile by blast
  ultimately show "\<exists>rest. line = ascii ''Number of steps: '' @ ds @ rest \<and> ds \<noteq> [] \<and>
      list_all (is_digit dec) ds \<and> (rest = [] \<or> \<not> is_digit dec (hd rest))"
    using ne unfolding steps_prefix_def by metis
next
  assume "\<exists>rest. line = ascii ''Number of steps: '' @ ds @ rest \<and> ds \<noteq> [] \<and>
             list_all (is_digit dec) ds \<and> (rest = [] \<or> \<not> is_digit dec (hd rest))"
  then obtain rest where l: "line = steps_prefix @ ds @ rest" and ne: "ds \<noteq> []"
    and dg: "list_all (is_digit dec) ds" and r: "rest = [] \<or> \<not> is_digit dec (hd rest)"
    unfolding steps_prefix_def by blast
  have "takeWhile (is_digit dec) rest = []"
    using r by (cases rest) auto
  then have "takeWhile (is_digit dec) (ds @ rest) = ds"
    using dg by (simp add: list_all_iff)
  then show "re_match_steps dec line = Some ds"
    using l ne by (simp add: re_match_steps_def)
qed

lemma re_match_steps_digit_run:
  "re_match_steps dec line = Some ds \<Longrightarrow> ds = digit_run dec line"
  by (auto simp: re_match_steps_def digit_run_def steps_prefix_def Let_def split: if_splits)

lemma re_match_steps_None_iff:
  "re_match_steps dec line = None \<longleftrightarrow> \<not> matches_steps_pattern dec line"
proof
  assume n: "re_match_steps dec line = None"
  show "\<not> matches_steps_pattern dec line"
  proof
    assume "matches_steps_pattern dec line"
    then obtain ds rest where ne: "ds \<noteq> []" and dg: "list_all (is_digit dec) ds"
      and l: "line = steps_prefix @ ds @ rest"
      unfolding matches_steps_pattern_def steps_prefix_def by blast
    have "takeWhile (is_digit dec) (ds @ rest) \<noteq> []"
      using ne dg by (cases ds) auto
    then show False
      using n l by (simp add: re_match_steps_def Let_def)
  qed
next
  assume n: "\<not> matches_steps_pattern dec line"
  show "re_match_steps dec line = None"
  proof (cases "re_match_steps dec line")
    case None
    then show ?thesis .
  next
    case (Some ds)
    then have "matches_steps_pattern dec line"
      unfolding re_match_steps_Some_iff matches_steps_pattern_def by blast
    with n show ?thesis by simp
  qed
qed

lemma re_match_steps_matches:
  "matches_steps_pattern dec line \<Longrightarrow> re_match_steps dec line = Some (digit_run dec line)"
  using re_match_steps_None_iff [of dec line] re_match_steps_digit_run [of dec line]
  by (cases "re_match_steps dec line") auto

text \<open>
  The loop raises the error of the missing line exactly when no line matches; otherwise
  its outcome is that of \<open>int\<close> on the digits of the first line that matches.
\<close>

lemma int_from_str_cases:
  "int_from_str dec maxd ds =
     (if exceeds_limit maxd ds then Inl (ValueError Int_limit_exceeded)
      else Inr (int_of_digits dec ds))"
  by (simp add: int_from_str_def exceeds_limit_def)

lemma scan_lines_not_found:
  "scan_lines dec maxd ls = Inl (ValueError Steps_not_found) \<longleftrightarrow>
     (\<forall>l \<in> set ls. re_match_steps dec l = None)"
  by (induction ls) (auto simp: int_from_str_def split: option.splits)

lemma scan_lines_first_match:
  assumes "i < length ls" "re_match_steps dec (ls ! i) = Some ds"
    and "\<forall>j<i. re_match_steps dec (ls ! j) = None"
  shows "scan_lines dec maxd ls = int_from_str dec maxd ds"
  using assms
proof (induction ls arbitrary: i)
  case Nil
  then show ?case by simp
next
  case (Cons l ls)
  show ?case
  proof (cases i)
    case 0
    with Cons.prems show ?thesis by simp
  next
    case (Suc k)
    have "re_match_steps dec l = None"
      using Cons.prems(3) Suc by (metis nth_Cons_0 zero_less_Suc)
    moreover have "scan_lines dec maxd ls = int_from_str dec maxd ds"
    proof (rule Cons.IH [of k])
      show "k < length ls" using Cons.prems(1) Suc by simp
      show "re_match_steps dec (ls ! k) = Some ds" using Cons.prems(2) Suc by simp
      show "\<forall>j<k. re_match_steps dec (ls ! j) = None"
      proof (intro allI impI)
        fix j assume "j < k"
        then have "Suc j < i" using Suc by simp
        then have "re_match_steps dec ((l # ls) ! Suc j) = None" using Cons.prems(3) by blast
        then show "re_match_steps dec (ls ! j) = None" by simp
      qed
    qed
    ultimately show ?thesis by simp
  qed
qed

lemma scan_lines_first_matching_line:
  "first_matching_line dec ls = Some line \<Longrightarrow>
     scan_lines dec maxd ls = int_from_str dec maxd (digit_run dec line)"
proof (induction ls)
  case Nil
  then show ?case by (simp add: first_matching_line_def)
next
  case (Cons l ls)
  show ?case
  proof (cases "matches_steps_pattern dec l")
    case True
    then have "line = l" using Cons.prems by (simp add: first_matching_line_def)
    then show ?thesis using True by (simp add: re_match_steps_matches)
  next
    case False
    then have "re_match_steps dec l = None" by (simp add: re_match_steps_None_iff)
    moreover have "first_matching_line dec ls = Some line"
      using Cons.prems False by (simp add: first_matching_line_def)
    ultimately show ?thesis using Cons.IH by simp
  qed
qed

lemma first_matching_line_None_iff:
  "first_matching_line dec ls = None \<longleftrightarrow> \<not> (\<exists>line \<in> set ls. matches_steps_pattern dec line)"
  by (auto simp: first_matching_line_def find_None_iff)

text \<open>
  The conversion of the digits is the decimal value: it is never negative, and a further
  digit multiplies by ten and adds.
\<close>

lemma int_of_digits_nonneg: "0 \<le> int_of_digits dec ds"
  by (simp add: int_of_digits_def)

lemma int_of_digits_snoc:
  "int_of_digits dec (ds @ [c]) = 10 * int_of_digits dec ds + int (digit_val dec c)"
  by (simp add: int_of_digits_def)

lemma scan_lines_nonneg: "scan_lines dec maxd ls = Inr n \<Longrightarrow> 0 \<le> n"
  by (induction ls)
     (auto simp: int_of_digits_nonneg int_from_str_def split: option.splits if_splits)

lemma get_nb_steps_nonneg: "get_nb_steps dec maxd report = Inr n \<Longrightarrow> 0 \<le> n"
  unfolding get_nb_steps_def by (rule scan_lines_nonneg)

text \<open>
  A text without line boundaries is its own single line. A report whose only line is
  the prefix followed by more digits than the limit allows makes \<open>int\<close> raise.
\<close>

lemma splitlines_from_no_break:
  "list_all (\<lambda>c. \<not> is_linebreak c) s \<Longrightarrow>
     splitlines_from cur s = (if cur = [] \<and> s = [] then [] else [rev cur @ s])"
proof (induction cur s rule: splitlines_from.induct)
  case (1 cur)
  then show ?case by simp
next
  case (2 cur c)
  then show ?case by simp
next
  case (3 cur c d cs)
  have nb: "\<not> is_linebreak c" using "3.prems" by simp
  then have "\<not> (c = 13 \<and> d = 10)" by (auto simp: is_linebreak_def)
  moreover have "list_all (\<lambda>c. \<not> is_linebreak c) (d # cs)" using "3.prems" by simp
  ultimately show ?case using nb "3.IH"(3) by simp
qed

lemma splitlines_single:
  "s \<noteq> [] \<Longrightarrow> list_all (\<lambda>c. \<not> is_linebreak c) s \<Longrightarrow> splitlines s = [s]"
  by (simp add: splitlines_def splitlines_from_no_break)

lemma prefix_no_break: "list_all (\<lambda>c. \<not> is_linebreak c) (ascii ''Number of steps: '')"
  by (simp add: ascii_def is_linebreak_def)

lemma long_line_raises:
  assumes "is_digit dec d" "\<not> is_linebreak d" "0 < maxd" "maxd < n"
  shows "splitlines (ascii ''Number of steps: '' @ replicate n d)
           = [ascii ''Number of steps: '' @ replicate n d] \<and>
         matches_steps_pattern dec (ascii ''Number of steps: '' @ replicate n d) \<and>
         get_nb_steps dec maxd (ascii ''Number of steps: '' @ replicate n d)
           = Inl (ValueError Int_limit_exceeded)"
proof -
  let ?line = "ascii ''Number of steps: '' @ replicate n d"
  have n0: "replicate n d \<noteq> []" using assms(3,4) by simp
  have dg: "list_all (is_digit dec) (replicate n d)"
    using assms(1) by (simp add: list_all_iff)
  have "list_all (\<lambda>c. \<not> is_linebreak c) ?line"
    using prefix_no_break assms(2) by (auto simp: list_all_iff)
  moreover have "?line \<noteq> []" using n0 by simp
  ultimately have sl: "splitlines ?line = [?line]"
    by (intro splitlines_single)
  have m: "re_match_steps dec ?line = Some (replicate n d)"
    unfolding re_match_steps_Some_iff using n0 dg by simp
  then have mp: "matches_steps_pattern dec ?line"
    using re_match_steps_None_iff [of dec ?line] by simp
  have "get_nb_steps dec maxd ?line = int_from_str dec maxd (replicate n d)"
    by (simp add: get_nb_steps_def sl m)
  also have "\<dots> = Inl (ValueError Int_limit_exceeded)"
    using assms(3,4) by (simp add: int_from_str_def)
  finally show ?thesis using sl mp by simp
qed

text \<open>
  The table of the decimal digits, at some code points: the ASCII digits, the
  Arabic-Indic digit three, two characters that are not decimal digits (a letter and the
  superscript two), and the last digits of two late runs. Below 128 the decimal digits
  are the ASCII digits.
\<close>

lemma unicode_decimal_ascii_digits:
  "unicode_decimal 48 = Some 0" "unicode_decimal 49 = Some 1" "unicode_decimal 57 = Some 9"
  by (simp_all add: unicode_decimal_def decimal_zeros_def)

lemma unicode_decimal_examples:
  "unicode_decimal 1635 = Some 3" "unicode_decimal 65 = None" "unicode_decimal 178 = None"
  "unicode_decimal 120831 = Some 9" "unicode_decimal 130041 = Some 9"
  by (simp_all add: unicode_decimal_def decimal_zeros_def)

lemma unicode_decimal_below_128:
  "c < 128 \<Longrightarrow> unicode_decimal c = (if 48 \<le> c \<and> c \<le> 57 then Some (c - 48) else None)"
  by (auto simp: unicode_decimal_def decimal_zeros_def)

lemma is_digit_below_128:
  "c < 128 \<Longrightarrow> is_digit unicode_decimal c \<longleftrightarrow> 48 \<le> c \<and> c \<le> 57"
  by (simp add: is_digit_def unicode_decimal_below_128)

text \<open>
  The reports of the examples, evaluated.
\<close>

lemma example_lines:
  "splitlines (ascii example_report) =
     map ascii [''Program output:'', ''  1'', ''Number of steps: 777 (extra text)'', ''Done'']"
  by (simp add: example_report_def splitlines_def ascii_def is_linebreak_def)

lemma int_of_digits_777: "int_of_digits unicode_decimal (ascii ''777'') = 777"
  by (simp add: int_of_digits_def digit_val_def ascii_def unicode_decimal_below_128)

lemma get_nb_steps_example:
  "get_nb_steps unicode_decimal 4300 (ascii example_report) = Inr 777"
  unfolding get_nb_steps_def example_lines
  by (simp add: re_match_steps_def steps_prefix_def ascii_def
      is_digit_below_128 int_from_str_def int_of_digits_def digit_val_def
      unicode_decimal_below_128)

lemma get_nb_steps_zero:
  "get_nb_steps unicode_decimal 4300 (ascii ''Number of steps: 0'') = Inr 0"
  by (simp add: get_nb_steps_def splitlines_def is_linebreak_def re_match_steps_def
      steps_prefix_def ascii_def is_digit_below_128 int_from_str_def int_of_digits_def
      digit_val_def unicode_decimal_below_128)

lemma get_nb_steps_no_line:
  "get_nb_steps unicode_decimal 4300 (ascii ''Program output:\<newline>  1'')
     = Inl (ValueError Steps_not_found)"
  by (simp add: get_nb_steps_def splitlines_def is_linebreak_def re_match_steps_def
      steps_prefix_def ascii_def)

text \<open>
  Claim C3, as amended. Scanning the lines of the report from the start, the extractor
  reads the first line that matches the pattern \<open>Number of steps: <digits>\<close>: when
  line \<open>i\<close> is the prefix followed by the digits \<open>ds\<close> and a rest that does not go on
  with a digit, and no earlier line matches, the extractor returns the decimal value of
  \<open>ds\<close>, unless \<open>ds\<close> has more digits than the interpreter's limit for \<open>int\<close>
  (4300 by default), in which case \<open>int\<close> raises \<open>ValueError\<close>. A report with the
  line \<open>Number of steps: 777 (extra text)\<close> yields 777. A report whose line has 4301
  digits matches and yields no integer under the default limit.
\<close>

theorem get_nb_steps_first_match:
  assumes "i < length (splitlines report)"
    and "splitlines report ! i = ascii ''Number of steps: '' @ ds @ rest"
    and "ds \<noteq> []" and "list_all (is_digit dec) ds"
    and "rest = [] \<or> \<not> is_digit dec (hd rest)"
    and "\<forall>j<i. \<not> matches_steps_pattern dec (splitlines report ! j)"
  shows "get_nb_steps dec maxd report =
           (if exceeds_limit maxd ds then Inl (ValueError Int_limit_exceeded)
            else Inr (int_of_digits dec ds))"
proof -
  have "re_match_steps dec (splitlines report ! i) = Some ds"
    unfolding re_match_steps_Some_iff using assms(2-5) by blast
  moreover have "\<forall>j<i. re_match_steps dec (splitlines report ! j) = None"
    using assms(6) by (simp add: re_match_steps_None_iff)
  ultimately have "scan_lines dec maxd (splitlines report) = int_from_str dec maxd ds"
    using assms(1) by (rule scan_lines_first_match [rotated])
  then show ?thesis
    by (simp add: get_nb_steps_def int_from_str_cases)
qed

theorem get_nb_steps_first_match_witness:
  "splitlines (ascii example_report) ! 2 = ascii ''Number of steps: 777 (extra text)'' \<and>
   \<not> exceeds_limit 4300 (ascii ''777'') \<and>
   get_nb_steps unicode_decimal 4300 (ascii example_report) = Inr 777"
proof -
  have h1: "2 < length (splitlines (ascii example_report))"
    by (simp add: example_lines)
  have h2: "splitlines (ascii example_report) ! 2
      = ascii ''Number of steps: '' @ ascii ''777'' @ ascii '' (extra text)''"
    unfolding example_lines by (simp add: ascii_def)
  have h3: "ascii ''777'' \<noteq> []" by (simp add: ascii_def)
  have h4: "list_all (is_digit unicode_decimal) (ascii ''777'')"
    by (simp add: ascii_def is_digit_below_128)
  have h5: "ascii '' (extra text)'' = [] \<or>
      \<not> is_digit unicode_decimal (hd (ascii '' (extra text)''))"
    by (simp add: ascii_def is_digit_below_128)
  have n0: "re_match_steps unicode_decimal (ascii ''Program output:'') = None"
    by (simp add: re_match_steps_def steps_prefix_def ascii_def)
  have n1: "re_match_steps unicode_decimal (ascii ''  1'') = None"
    by (simp add: re_match_steps_def steps_prefix_def ascii_def)
  have h6: "\<forall>j<2. \<not> matches_steps_pattern unicode_decimal (splitlines (ascii example_report) ! j)"
    using n0 n1 by (auto simp: example_lines re_match_steps_None_iff less_2_cases_iff)
  have e: "\<not> exceeds_limit 4300 (ascii ''777'')"
    by (simp add: exceeds_limit_def)
  show ?thesis
    using get_nb_steps_first_match [OF h1 h2 h3 h4 h5 h6, of 4300] e int_of_digits_777
    by (simp add: example_lines)
qed

theorem get_nb_steps_raises_at_4301_ones:
  "splitlines long_report_ones = [long_report_ones] \<and>
   matches_steps_pattern unicode_decimal long_report_ones \<and>
   get_nb_steps unicode_decimal 4300 long_report_ones = Inl (ValueError Int_limit_exceeded)"
  unfolding long_report_ones_def
  by (rule long_line_raises) (simp_all add: is_digit_below_128 is_linebreak_def)

text \<open>
  Claim C4, as amended. The extractor raises the error of the missing line, the parse
  error of the specification, exactly when no line of the report matches the pattern.
  When a line matches, it returns an integer exactly when the digits of the first
  matching line are within the interpreter's limit for \<open>int\<close>, and \<open>int\<close> raises
  \<open>ValueError\<close> exactly when they exceed it. A report whose first matching line has
  4301 digits raises under the default limit although a line matches.
\<close>

theorem get_nb_steps_raises_iff:
  "(get_nb_steps dec maxd report = Inl (ValueError Steps_not_found) \<longleftrightarrow>
      \<not> (\<exists>line \<in> set (splitlines report). matches_steps_pattern dec line)) \<and>
   ((\<exists>n. get_nb_steps dec maxd report = Inr n) \<longleftrightarrow>
      (\<exists>line. first_matching_line dec (splitlines report) = Some line \<and>
              \<not> exceeds_limit maxd (digit_run dec line))) \<and>
   (get_nb_steps dec maxd report = Inl (ValueError Int_limit_exceeded) \<longleftrightarrow>
      (\<exists>line. first_matching_line dec (splitlines report) = Some line \<and>
              exceeds_limit maxd (digit_run dec line)))"
proof (cases "first_matching_line dec (splitlines report)")
  case None
  then have "\<forall>l \<in> set (splitlines report). re_match_steps dec l = None"
    by (simp add: first_matching_line_None_iff re_match_steps_None_iff)
  then have g: "get_nb_steps dec maxd report = Inl (ValueError Steps_not_found)"
    by (simp add: get_nb_steps_def scan_lines_not_found)
  have "\<not> (\<exists>line \<in> set (splitlines report). matches_steps_pattern dec line)"
    using None by (simp add: first_matching_line_None_iff)
  then show ?thesis
    by (simp add: g None)
next
  case (Some line)
  then have g: "get_nb_steps dec maxd report = int_from_str dec maxd (digit_run dec line)"
    by (simp add: get_nb_steps_def scan_lines_first_matching_line)
  have "\<exists>l \<in> set (splitlines report). matches_steps_pattern dec l"
    using Some first_matching_line_None_iff [of dec "splitlines report"] by auto
  then show ?thesis
    using Some by (auto simp: g int_from_str_cases)
qed

theorem get_nb_steps_raises_iff_witness:
  "get_nb_steps unicode_decimal 4300 (ascii ''Program output:\<newline>  1'')
     = Inl (ValueError Steps_not_found) \<and>
   \<not> (\<exists>line \<in> set (splitlines (ascii ''Program output:\<newline>  1'')).
        matches_steps_pattern unicode_decimal line) \<and>
   get_nb_steps unicode_decimal 4300 (ascii example_report) = Inr 777 \<and>
   (\<exists>line. first_matching_line unicode_decimal (splitlines (ascii example_report)) = Some line \<and>
           \<not> exceeds_limit 4300 (digit_run unicode_decimal line))"
  using get_nb_steps_raises_iff [of unicode_decimal 4300 "ascii ''Program output:\<newline>  1''"]
    get_nb_steps_raises_iff [of unicode_decimal 4300 "ascii example_report"]
    get_nb_steps_no_line get_nb_steps_example
  by simp

theorem get_nb_steps_raises_at_4301_nines:
  "splitlines long_report_nines = [long_report_nines] \<and>
   matches_steps_pattern unicode_decimal long_report_nines \<and>
   get_nb_steps unicode_decimal 4300 long_report_nines \<noteq> Inl (ValueError Steps_not_found) \<and>
   get_nb_steps unicode_decimal 4300 long_report_nines = Inl (ValueError Int_limit_exceeded)"
proof -
  have "splitlines long_report_nines = [long_report_nines] \<and>
   matches_steps_pattern unicode_decimal long_report_nines \<and>
   get_nb_steps unicode_decimal 4300 long_report_nines = Inl (ValueError Int_limit_exceeded)"
    unfolding long_report_nines_def
    by (rule long_line_raises) (simp_all add: is_digit_below_128 is_linebreak_def)
  then show ?thesis by simp
qed

subsection \<open>The actions of a run\<close>

lemma and_then_Inl: "fst m = Inl err \<Longrightarrow> and_then m f = (Inl err, snd m)"
  by (simp add: and_then_def)

lemma and_then_Inr: "fst m = Inr x \<Longrightarrow> and_then m f = (fst (f x), snd m @ snd (f x))"
  by (simp add: and_then_def)

lemma and_then_pair_Inr: "and_then (Inr x, tr) f = (fst (f x), tr @ snd (f x))"
  by (simp add: and_then_def)

lemma and_then_list_all:
  assumes "list_all Q (snd m)" and "\<And>x. fst m = Inr x \<Longrightarrow> list_all Q (snd (f x))"
  shows "list_all Q (snd (and_then m f))"
  using assms by (cases "fst m") (simp_all add: and_then_def)

lemma and_then_fails:
  assumes "\<And>x. fst m = Inr x \<Longrightarrow> \<exists>err. fst (f x) = Inl err"
  shows "\<exists>err. fst (and_then m f) = Inl err"
  using assms by (cases "fst m") (simp_all add: and_then_def)

lemma created_files_iff:
  "f \<in> set (created_files events) \<longleftrightarrow> (\<exists>ev \<in> set events. f \<in> set (created_by ev))"
  by (auto simp: created_files_def)

text \<open>
  The name of a path is its stem followed by nothing or by a suffix that starts with a
  dot, so it is never the stem followed by an underscore and more.
\<close>

lemma rfind_dot_is_dot:
  assumes "rfind_dot name = Some i"
  shows "i < length name \<and> name ! i = CHR ''.''"
proof -
  let ?t = "takeWhile (\<lambda>c. c \<noteq> CHR ''.'') (rev name)"
  from assms have mem: "CHR ''.'' \<in> set name" and i: "i = length name - 1 - length ?t"
    by (auto simp: rfind_dot_def split: if_splits)
  have "dropWhile (\<lambda>c. c \<noteq> CHR ''.'') (rev name) \<noteq> []"
    using mem by (simp add: dropWhile_eq_Nil_conv)
  moreover have "length ?t + length (dropWhile (\<lambda>c. c \<noteq> CHR ''.'') (rev name)) = length (rev name)"
    by (metis length_append takeWhile_dropWhile_id)
  ultimately have lt: "length ?t < length (rev name)"
    by (cases "dropWhile (\<lambda>c. c \<noteq> CHR ''.'') (rev name)") simp_all
  then have "rev name ! length ?t = CHR ''.''"
    using nth_length_takeWhile [of "\<lambda>c. c \<noteq> CHR ''.''" "rev name"] by simp
  moreover have "rev name ! length ?t = name ! (length name - Suc (length ?t))"
    using lt by (simp add: rev_nth)
  ultimately show ?thesis using lt i by simp
qed

lemma name_is_stem_suffix:
  "\<exists>suf. path_name p = stem p @ suf \<and> (suf = [] \<or> hd suf = CHR ''.'')"
proof (cases "rfind_dot (path_name p)")
  case None
  then show ?thesis by (simp add: stem_def)
next
  case (Some i)
  show ?thesis
  proof (cases "0 < i \<and> i < length (path_name p) - 1")
    case True
    have d: "i < length (path_name p)" "path_name p ! i = CHR ''.''"
      using rfind_dot_is_dot [OF Some] by simp_all
    have "path_name p = take i (path_name p) @ drop i (path_name p)" by simp
    moreover have "hd (drop i (path_name p)) = CHR ''.''"
      using d by (simp add: hd_drop_conv_nth)
    moreover have "stem p = take i (path_name p)"
      using Some True by (simp add: stem_def)
    ultimately show ?thesis by metis
  next
    case False
    then have "stem p = path_name p" using Some by (auto simp: stem_def)
    then show ?thesis by simp
  qed
qed

lemma name_not_stem_underscore:
  assumes "hd s = CHR ''_''" "s \<noteq> []"
  shows "path_name p \<noteq> stem p @ s"
proof
  assume eq: "path_name p = stem p @ s"
  obtain suf where n: "path_name p = stem p @ suf" and h: "suf = [] \<or> hd suf = CHR ''.''"
    using name_is_stem_suffix by blast
  from eq n have "suf = s" by simp
  with h assms show False by auto
qed

lemma named_by_convention_kinds:
  "named_by_convention base (base @ ''_compiled.json'')"
  "named_by_convention base (base @ ''_public_input.json'')"
  "named_by_convention base (base @ ''_private_input.json'')"
  "named_by_convention base (base @ ''_memory.bin'')"
  "named_by_convention base (base @ ''_trace.bin'')"
  "named_by_convention base (base @ ''_proof.json'')"
  by (simp_all add: named_by_convention_def)

lemma stem_fib: "stem [''fib.cairo''] = ''fib''"
  by code_simp

lemma stem_out_fib: "stem [''out'', ''fib.cairo''] = ''fib''"
  by code_simp

text \<open>
  What holds of every action a stage can perform holds of the actions it performs.
\<close>

lemma make_output_dir_all:
  "Q (Ev_mkdir dir) \<Longrightarrow> list_all Q (snd (make_output_dir e dir))"
  by (simp add: make_output_dir_def)

lemma copy_program_all:
  "Q (Ev_copy p (joinpath dir (path_name p))) \<Longrightarrow> list_all Q (snd (copy_program e p dir))"
  by (simp add: copy_program_def Let_def split: copy_outcome.splits)

lemma compile_cairo_program_all:
  "Q (Ev_exec (compile_command p out)) \<Longrightarrow> list_all Q (snd (compile_cairo_program e p out))"
  by (simp add: compile_cairo_program_def Let_def split: option.splits)

lemma run_cairo_program_all:
  assumes "Q (Ev_exec (run_command c dir name inp))" and "\<And>msg. Q (Ev_print (Run_failed msg))"
  shows "list_all Q (snd (run_cairo_program e c dir name inp))"
  using assms by (simp add: run_cairo_program_def Let_def split: option.splits sum.splits)

lemma generate_prover_config_all:
  assumes "\<And>text. Q (Ev_write (joinpath dir ''cpu_air_prover_config.json'') text)"
    and "\<And>text. Q (Ev_write (joinpath dir ''cpu_air_params.json'') text)"
  shows "list_all Q (snd (generate_prover_config e arts dir))"
  using assms by (simp add: generate_prover_config_def Let_def split: sum.splits)

lemma prove_cairo_program_all:
  assumes "Q (Ev_exec (prove_command arts c p out))" and "\<And>msg. Q (Ev_print (Could_not_prove msg))"
  shows "list_all Q (snd (prove_cairo_program e arts c p out))"
  using assms by (simp add: prove_cairo_program_def Let_def split: option.splits)

lemma main_all:
  assumes "output_dir a = Some dir"
    and "Q (Ev_mkdir dir)"
    and "Q (Ev_copy (program a) (joinpath dir (path_name (program a))))"
    and "Q (Ev_exec (compile_command (program a)
            (joinpath dir (stem (program a) @ ''_compiled.json''))))"
    and "Q (Ev_exec (run_command (joinpath dir (stem (program a) @ ''_compiled.json'')) dir
            (stem (program a)) None))"
    and "\<And>msg. Q (Ev_print (Run_failed msg))"
    and "\<And>text. Q (Ev_write (joinpath dir ''cpu_air_prover_config.json'') text)"
    and "\<And>text. Q (Ev_write (joinpath dir ''cpu_air_params.json'') text)"
    and "\<And>arts c p. Q (Ev_exec (prove_command arts c p
            (joinpath dir (stem (program a) @ ''_proof.json''))))"
    and "\<And>msg. Q (Ev_print (Could_not_prove msg))"
    and "Q (Ev_print (Proof_generated (joinpath dir (stem (program a) @ ''_proof.json''))))"
  shows "list_all Q (snd (main e a))"
proof -
  have tail: "list_all Q (snd (and_then (generate_prover_config e arts dir)
        (\<lambda>(prover_config, prover_params).
           and_then (prove_cairo_program e arts prover_config prover_params
                (joinpath dir (stem (program a) @ ''_proof.json'')))
             (\<lambda>_. (Inr (), [Ev_print (Proof_generated
                (joinpath dir (stem (program a) @ ''_proof.json'')))])))))" for arts
  proof (rule and_then_list_all)
    show "list_all Q (snd (generate_prover_config e arts dir))"
      using assms(7,8) by (rule generate_prover_config_all)
  next
    fix x
    show "list_all Q (snd (case x of (prover_config, prover_params) \<Rightarrow>
           and_then (prove_cairo_program e arts prover_config prover_params
                (joinpath dir (stem (program a) @ ''_proof.json'')))
             (\<lambda>_. (Inr (), [Ev_print (Proof_generated
                (joinpath dir (stem (program a) @ ''_proof.json'')))]))))"
    proof (cases x)
      case (Pair c p)
      have "list_all Q (snd (and_then (prove_cairo_program e arts c p
                (joinpath dir (stem (program a) @ ''_proof.json'')))
             (\<lambda>_. (Inr (), [Ev_print (Proof_generated
                (joinpath dir (stem (program a) @ ''_proof.json'')))]))))"
        by (rule and_then_list_all) (simp_all add: prove_cairo_program_all assms(9,10,11))
      then show ?thesis using Pair by simp
    qed
  qed
  show ?thesis
    unfolding main_def Let_def using assms(1)
    by (auto intro!: and_then_list_all make_output_dir_all copy_program_all
        compile_cairo_program_all run_cairo_program_all tail assms split: option.splits)
qed

lemma main_stops_at_runner:
  assumes "output_dir a = Some dir"
    and "\<exists>err. fst (run_cairo_program e (joinpath dir (stem (program a) @ ''_compiled.json'')) dir
            (stem (program a)) None) = Inl err"
    and "Q (Ev_mkdir dir)"
    and "Q (Ev_copy (program a) (joinpath dir (path_name (program a))))"
    and "Q (Ev_exec (compile_command (program a)
            (joinpath dir (stem (program a) @ ''_compiled.json''))))"
    and "Q (Ev_exec (run_command (joinpath dir (stem (program a) @ ''_compiled.json'')) dir
            (stem (program a)) None))"
    and "\<And>msg. Q (Ev_print (Run_failed msg))"
  shows "(\<exists>err. fst (main e a) = Inl err) \<and> list_all Q (snd (main e a))"
proof -
  let ?run = "run_cairo_program e (joinpath dir (stem (program a) @ ''_compiled.json'')) dir
            (stem (program a)) None"
  obtain err where err: "fst ?run = Inl err" using assms(2) by blast
  have run: "and_then ?run f = (Inl err, snd ?run)" for f :: "ExecutionArtifacts \<Rightarrow> unit outcome"
    using err by (rule and_then_Inl)
  have runQ: "list_all Q (snd ?run)"
    using assms(6,7) by (rule run_cairo_program_all)
  have 1: "\<exists>err. fst (main e a) = Inl err"
    unfolding main_def Let_def using assms(1)
    by (auto simp: run intro!: and_then_fails split: option.splits)
  have 2: "list_all Q (snd (main e a))"
    unfolding main_def Let_def using assms(1)
    by (auto simp: run runQ intro!: and_then_list_all make_output_dir_all copy_program_all
        compile_cairo_program_all assms(3,4,5) split: option.splits)
  from 1 2 show ?thesis ..
qed

lemma output_paths_compile [simp]: "output_paths (compile_command p out) = [out]"
  by (simp add: compile_command_def)

lemma output_paths_run [simp]:
  "output_paths (run_command c dir name inp) =
     [joinpath dir (name @ ''_public_input.json''), joinpath dir (name @ ''_private_input.json''),
      joinpath dir (name @ ''_trace.bin''), joinpath dir (name @ ''_memory.bin'')]"
  by (simp add: run_command_def Let_def split: option.splits)

lemma output_paths_prove [simp]: "output_paths (prove_command arts c p out) = [out]"
  by (simp add: prove_command_def)

lemma runs_prover_simps [simp]:
  "\<not> runs_prover (Ev_exec (compile_command p out))"
  "\<not> runs_prover (Ev_exec (run_command c dir name inp))"
  by (simp_all add: compile_command_def run_command_def Let_def)

lemma joinpath_eq [simp]: "joinpath dir x = joinpath dir y \<longleftrightarrow> x = y"
  by (simp add: joinpath_def)

lemma run_cairo_program_fails:
  assumes "subprocess_run e (run_command c dir name inp) = Some result" "returncode result \<noteq> 0"
  shows "\<exists>err. fst (run_cairo_program e c dir name inp) = Inl err"
  using assms by (simp add: run_cairo_program_def Let_def split: option.splits)

lemma compile_then_first_event:
  "\<exists>rest. snd (and_then (compile_cairo_program e p out) f) = Ev_exec (compile_command p out) # rest"
  by (cases "fst (compile_cairo_program e p out)")
     (auto simp: and_then_def compile_cairo_program_def Let_def split: option.splits if_splits)

text \<open>
  The runs of the examples, evaluated.
\<close>

lemma decode_ascii_examples:
  "decode_ascii [] = Some []"
  "decode_ascii ''Error'' = Some (ascii ''Error'')"
  "decode_ascii example_report = Some (ascii example_report)"
  "decode_ascii ''Number of steps: 0'' = Some (ascii ''Number of steps: 0'')"
  by (simp_all add: decode_ascii_def example_report_def) (simp add: ascii_def)

lemma tools_succeed_compile:
  "tools_succeed report (compile_command p out)
     = Some \<lparr>returncode = 0, stdout = [], stderr = []\<rparr>"
  by (simp add: tools_succeed_def compile_command_def)

lemma tools_succeed_run:
  "tools_succeed report (run_command c dir name inp)
     = Some \<lparr>returncode = 0, stdout = report, stderr = []\<rparr>"
  by (simp add: tools_succeed_def run_command_def)

lemma tools_succeed_prove:
  "tools_succeed report (prove_command arts c p out)
     = Some \<lparr>returncode = 0, stdout = [], stderr = []\<rparr>"
  by (simp add: tools_succeed_def prove_command_def)

lemma runner_fails_compile:
  "runner_fails (compile_command p out) = Some \<lparr>returncode = 0, stdout = [], stderr = []\<rparr>"
  by (simp add: runner_fails_def compile_command_def)

lemma runner_fails_run:
  "runner_fails (run_command c dir name inp)
     = Some \<lparr>returncode = 1, stdout = [], stderr = ''Error''\<rparr>"
  by (simp add: runner_fails_def run_command_def)

lemma main_runner_fails:
  "main runner_fails_env example_args =
     (Inl (CalledProcessError 1),
      [Ev_mkdir [''out''],
       Ev_copy [''fib.cairo''] [''out'', ''fib.cairo''],
       Ev_exec (compile_command [''fib.cairo''] [''out'', ''fib_compiled.json'']),
       Ev_exec (run_command [''out'', ''fib_compiled.json''] [''out''] ''fib'' None),
       Ev_print (Run_failed (ascii ''Error''))])"
  by (simp add: main_def example_args_def runner_fails_env_def example_env_def stem_fib
      make_output_dir_def copy_program_def compile_cairo_program_def run_cairo_program_def
      and_then_def Let_def joinpath_def path_name_def runner_fails_compile runner_fails_run
      decode_ascii_examples)

lemma run_example_zero:
  "fst (run_cairo_program (example_env ''Number of steps: 0'') [''out'', ''fib_compiled.json'']
          [''out''] ''fib'' None)
     = Inr \<lparr>public_input = [''out'', ''fib_public_input.json''],
            private_input = [''out'', ''fib_private_input.json''],
            memory = [''out'', ''fib_memory.bin''],
            trace = [''out'', ''fib_trace.bin''],
            nb_steps = 0\<rparr>"
  by (simp add: run_cairo_program_def example_env_def tools_succeed_run decode_ascii_examples
      get_nb_steps_zero joinpath_def)

lemma run_example:
  "fst (run_cairo_program (example_env example_report) [''out'', ''fib_compiled.json'']
          [''out''] ''fib'' None)
     = Inr \<lparr>public_input = [''out'', ''fib_public_input.json''],
            private_input = [''out'', ''fib_private_input.json''],
            memory = [''out'', ''fib_memory.bin''],
            trace = [''out'', ''fib_trace.bin''],
            nb_steps = 777\<rparr>"
  by (simp add: run_cairo_program_def example_env_def tools_succeed_run decode_ascii_examples
      get_nb_steps_example joinpath_def)

lemma created_files_example:
  "created_files (snd (main (example_env example_report) example_args)) =
     [[''out'', ''fib.cairo''], [''out'', ''fib_compiled.json''],
      [''out'', ''fib_public_input.json''], [''out'', ''fib_private_input.json''],
      [''out'', ''fib_trace.bin''], [''out'', ''fib_memory.bin''],
      [''out'', ''cpu_air_prover_config.json''], [''out'', ''cpu_air_params.json''],
      [''out'', ''fib_proof.json'']]"
  by (simp add: main_def example_args_def example_env_def stem_fib
      make_output_dir_def copy_program_def compile_cairo_program_def run_cairo_program_def
      generate_prover_config_def prove_cairo_program_def
      and_then_def Let_def joinpath_def path_name_def tools_succeed_compile tools_succeed_run
      tools_succeed_prove decode_ascii_examples get_nb_steps_example
      compute_fri_step_list_def created_files_def)

lemma main_same_file:
  "take 2 (snd (main same_file_env same_file_args)) =
     [Ev_mkdir [''out''],
      Ev_exec (compile_command [''out'', ''fib.cairo''] [''out'', ''fib_compiled.json''])]"
  by (simp add: main_def same_file_args_def same_file_env_def example_env_def stem_out_fib
      make_output_dir_def copy_program_def compile_cairo_program_def
      and_then_def Let_def joinpath_def path_name_def tools_succeed_compile)

subsection \<open>The driver and its stages\<close>

text \<open>
  Claim C5. When the runner exits with a non-zero status, the driver ends with an
  exception, none of its actions starts the prover or writes a configuration document,
  and the proof file is not among the files the run creates. This holds whether or not
  the stages before the runner succeed.
\<close>

theorem runner_failure_aborts:
  assumes "output_dir a = Some dir"
    and "subprocess_run e
           (run_command (joinpath dir (stem (program a) @ ''_compiled.json'')) dir
              (stem (program a)) None) = Some result"
    and "returncode result \<noteq> 0"
  shows "(\<exists>err. fst (main e a) = Inl err) \<and>
         list_all (\<lambda>ev. \<not> runs_prover ev \<and> \<not> writes_file ev) (snd (main e a)) \<and>
         joinpath dir (stem (program a) @ ''_proof.json'') \<notin> set (created_files (snd (main e a)))"
proof -
  let ?proof = "joinpath dir (stem (program a) @ ''_proof.json'')"
  let ?Q = "\<lambda>ev. \<not> runs_prover ev \<and> \<not> writes_file ev \<and> ?proof \<notin> set (created_by ev)"
  have fails: "\<exists>err. fst (run_cairo_program e
      (joinpath dir (stem (program a) @ ''_compiled.json'')) dir (stem (program a)) None) = Inl err"
    using assms(2,3) by (rule run_cairo_program_fails)
  have copy: "path_name (program a) \<noteq> stem (program a) @ ''_proof.json''"
    by (rule name_not_stem_underscore) simp_all
  have "(\<exists>err. fst (main e a) = Inl err) \<and> list_all ?Q (snd (main e a))"
    using assms(1) fails
  proof (rule main_stops_at_runner)
    show "?Q (Ev_mkdir dir)" by simp
    show "?Q (Ev_copy (program a) (joinpath dir (path_name (program a))))"
      using copy by simp
    show "?Q (Ev_exec (compile_command (program a)
            (joinpath dir (stem (program a) @ ''_compiled.json''))))"
      by simp
    show "?Q (Ev_exec (run_command (joinpath dir (stem (program a) @ ''_compiled.json'')) dir
            (stem (program a)) None))"
      by simp
    show "?Q (Ev_print (Run_failed msg))" for msg by simp
  qed
  then show ?thesis
    by (auto simp: list_all_iff created_files_iff)
qed

theorem runner_failure_aborts_witness:
  "subprocess_run runner_fails_env
       (run_command [''out'', ''fib_compiled.json''] [''out''] ''fib'' None)
     = Some \<lparr>returncode = 1, stdout = [], stderr = ''Error''\<rparr> \<and>
   fst (main runner_fails_env example_args) = Inl (CalledProcessError 1) \<and>
   list_all (\<lambda>ev. \<not> runs_prover ev \<and> \<not> writes_file ev) (snd (main runner_fails_env example_args)) \<and>
   [''out'', ''fib_proof.json''] \<notin> set (created_files (snd (main runner_fails_env example_args)))"
proof -
  have h1: "output_dir example_args = Some [''out'']"
    by (simp add: example_args_def)
  have p: "program example_args = [''fib.cairo'']"
    by (simp add: example_args_def)
  have h2: "subprocess_run runner_fails_env
       (run_command (joinpath [''out''] (stem (program example_args) @ ''_compiled.json''))
          [''out''] (stem (program example_args)) None)
     = Some \<lparr>returncode = 1, stdout = [], stderr = ''Error''\<rparr>"
    by (simp add: runner_fails_env_def example_env_def runner_fails_def run_command_def)
  have h3: "returncode \<lparr>returncode = 1, stdout = [], stderr = ''Error''\<rparr> \<noteq> 0"
    by simp
  show ?thesis
    using runner_failure_aborts [OF h1 h2 h3] h2 main_runner_fails
    by (simp add: p stem_fib joinpath_def)
qed

text \<open>
  Claim C6. The configuration documents depend on the execution artifacts through the
  number of steps only: two artifact records with equal step counts give the same
  result, the same two files and the same text in each, whatever their other fields are.
\<close>

theorem prover_config_depends_on_nb_steps_only:
  "nb_steps a1 = nb_steps a2 \<Longrightarrow>
     generate_prover_config e a1 dir = generate_prover_config e a2 dir"
  by (simp add: generate_prover_config_def)

theorem prover_config_depends_on_nb_steps_only_witness:
  "nb_steps \<lparr>public_input = [''a''], private_input = [''b''], memory = [''c''], trace = [''d''],
             nb_steps = 512\<rparr>
     = nb_steps \<lparr>public_input = [''w''], private_input = [''x''], memory = [''y''],
                 trace = [''z''], nb_steps = 512\<rparr> \<and>
   generate_prover_config (example_env [])
       \<lparr>public_input = [''a''], private_input = [''b''], memory = [''c''], trace = [''d''],
        nb_steps = 512\<rparr> [''out'']
     = generate_prover_config (example_env [])
         \<lparr>public_input = [''w''], private_input = [''x''], memory = [''y''], trace = [''z''],
          nb_steps = 512\<rparr> [''out'']"
  using prover_config_depends_on_nb_steps_only
    [of "\<lparr>public_input = [''a''], private_input = [''b''], memory = [''c''], trace = [''d''],
          nb_steps = 512\<rparr>"
        "\<lparr>public_input = [''w''], private_input = [''x''], memory = [''y''], trace = [''z''],
          nb_steps = 512\<rparr>"
        "example_env []" "[''out'']"]
  by simp

text \<open>
  Claim C7, as amended. The number of steps of every artifact record that
  \<open>run_cairo_program\<close> builds is not negative. It need not be positive: the pattern
  accepts the digits \<open>0\<close>, and no stage rejects a count of zero, as the report
  \<open>Number of steps: 0\<close> shows.
\<close>

theorem artifacts_nb_steps_nonneg:
  assumes "fst (run_cairo_program e c dir name inp) = Inr arts"
  shows "0 \<le> nb_steps arts"
  using assms
  by (auto simp: run_cairo_program_def Let_def dest: get_nb_steps_nonneg
      split: option.splits if_splits sum.splits)

theorem artifacts_nb_steps_nonneg_witness:
  "fst (run_cairo_program (example_env example_report) [''out'', ''fib_compiled.json'']
          [''out''] ''fib'' None)
     = Inr \<lparr>public_input = [''out'', ''fib_public_input.json''],
            private_input = [''out'', ''fib_private_input.json''],
            memory = [''out'', ''fib_memory.bin''],
            trace = [''out'', ''fib_trace.bin''],
            nb_steps = 777\<rparr> \<and>
   (0::int) \<le> 777"
  using artifacts_nb_steps_nonneg [OF run_example] run_example by simp

theorem artifacts_nb_steps_zero:
  "get_nb_steps unicode_decimal 4300 (ascii ''Number of steps: 0'') = Inr 0 \<and>
   fst (run_cairo_program (example_env ''Number of steps: 0'') [''out'', ''fib_compiled.json'']
          [''out''] ''fib'' None)
     = Inr \<lparr>public_input = [''out'', ''fib_public_input.json''],
            private_input = [''out'', ''fib_private_input.json''],
            memory = [''out'', ''fib_memory.bin''],
            trace = [''out'', ''fib_trace.bin''],
            nb_steps = 0\<rparr>"
proof -
  show ?thesis using get_nb_steps_zero run_example_zero by simp
qed

text \<open>
  Claim C8, as amended. Every file a run creates lies in the output directory, and it is
  the copy of the program under the program's own file name, one of the two configuration
  documents, whose names \<open>cpu_air_prover_config.json\<close> and \<open>cpu_air_params.json\<close> are
  fixed, or a file named by the convention from the stem of the program: the compiled
  program, the four artifacts of the run, and the proof. For the program \<open>fib.cairo\<close>
  the two configuration documents do not follow the convention.
\<close>

theorem created_files_names:
  assumes "output_dir a = Some dir" and "f \<in> set (created_files (snd (main e a)))"
  shows "\<exists>fname. f = joinpath dir fname \<and>
           (fname = path_name (program a) \<or>
            fname = ''cpu_air_prover_config.json'' \<or>
            fname = ''cpu_air_params.json'' \<or>
            named_by_convention (stem (program a)) fname \<and>
            fname \<in> set (map (\<lambda>kind. stem (program a) @ kind)
                         [''_compiled.json'', ''_public_input.json'', ''_private_input.json'',
                          ''_memory.bin'', ''_trace.bin'', ''_proof.json'']))"
proof -
  let ?ok = "\<lambda>f. \<exists>fname. f = joinpath dir fname \<and>
           (fname = path_name (program a) \<or>
            fname = ''cpu_air_prover_config.json'' \<or>
            fname = ''cpu_air_params.json'' \<or>
            named_by_convention (stem (program a)) fname \<and>
            fname \<in> set (map (\<lambda>kind. stem (program a) @ kind)
                         [''_compiled.json'', ''_public_input.json'', ''_private_input.json'',
                          ''_memory.bin'', ''_trace.bin'', ''_proof.json'']))"
  let ?Q = "\<lambda>ev. \<forall>f \<in> set (created_by ev). ?ok f"
  have conv: "?ok (joinpath dir (stem (program a) @ kind))"
    if "kind \<in> set [''_compiled.json'', ''_public_input.json'', ''_private_input.json'',
                          ''_memory.bin'', ''_trace.bin'', ''_proof.json'']" for kind
  proof -
    have "named_by_convention (stem (program a)) (stem (program a) @ kind)"
      using that named_by_convention_kinds [of "stem (program a)"] by auto
    then show ?thesis using that by auto
  qed
  have "list_all ?Q (snd (main e a))"
    using assms(1)
  proof (rule main_all)
    show "?Q (Ev_mkdir dir)" by simp
    show "?Q (Ev_copy (program a) (joinpath dir (path_name (program a))))" by simp
    show "?Q (Ev_exec (compile_command (program a)
            (joinpath dir (stem (program a) @ ''_compiled.json''))))"
      using conv [of "''_compiled.json''"] by simp
    show "?Q (Ev_exec (run_command (joinpath dir (stem (program a) @ ''_compiled.json'')) dir
            (stem (program a)) None))"
      using conv [of "''_public_input.json''"] conv [of "''_private_input.json''"]
        conv [of "''_memory.bin''"] conv [of "''_trace.bin''"] by simp
    show "?Q (Ev_print (Run_failed msg))" for msg by simp
    show "?Q (Ev_write (joinpath dir ''cpu_air_prover_config.json'') doc)" for doc by simp
    show "?Q (Ev_write (joinpath dir ''cpu_air_params.json'') doc)" for doc by simp
    show "?Q (Ev_exec (prove_command arts c p (joinpath dir (stem (program a) @ ''_proof.json''))))"
      for arts c p
      using conv [of "''_proof.json''"] by simp
    show "?Q (Ev_print (Could_not_prove msg))" for msg by simp
    show "?Q (Ev_print (Proof_generated (joinpath dir (stem (program a) @ ''_proof.json''))))"
      by simp
  qed
  then show ?thesis
    using assms(2) unfolding created_files_iff list_all_iff by blast
qed

theorem created_files_names_witness:
  "output_dir example_args = Some [''out''] \<and>
   [''out'', ''fib_proof.json'']
     \<in> set (created_files (snd (main (example_env example_report) example_args))) \<and>
   named_by_convention ''fib'' ''fib_proof.json''"
proof -
  have h1: "output_dir example_args = Some [''out'']"
    by (simp add: example_args_def)
  have h2: "[''out'', ''fib_proof.json'']
     \<in> set (created_files (snd (main (example_env example_report) example_args)))"
    by (simp add: created_files_example)
  have "named_by_convention ''fib'' ''fib_proof.json''"
    using created_files_names [OF h1 h2]
    by (auto simp: joinpath_def example_args_def stem_fib path_name_def)
  with h1 h2 show ?thesis by simp
qed

theorem config_files_not_named_by_convention:
  "stem (program example_args) = ''fib'' \<and>
   [''out'', ''cpu_air_prover_config.json'']
     \<in> set (created_files (snd (main (example_env example_report) example_args))) \<and>
   \<not> named_by_convention ''fib'' ''cpu_air_prover_config.json'' \<and>
   [''out'', ''cpu_air_params.json'']
     \<in> set (created_files (snd (main (example_env example_report) example_args))) \<and>
   \<not> named_by_convention ''fib'' ''cpu_air_params.json''"
proof -
  have "stem (program example_args) = ''fib''"
    by (simp add: example_args_def stem_fib)
  moreover have "\<not> named_by_convention ''fib'' ''cpu_air_prover_config.json''"
    "\<not> named_by_convention ''fib'' ''cpu_air_params.json''"
    by (simp_all add: named_by_convention_def)
  ultimately show ?thesis
    by (simp add: created_files_example)
qed

text \<open>
  Claim C9. When the program is a file, the output directory can be made, and the copy
  finds that source and destination are the same file, the copy step returns without an
  exception and without copying, and the next action of the driver after making the
  directory is the call of the compiler.
\<close>

theorem same_file_copy_is_skipped:
  assumes "is_file e (program a)"
    and "\<forall>p. program_input a = Some p \<longrightarrow> is_file e p"
    and "output_dir a = Some dir"
    and "\<not> mkdir_fails e dir"
    and "copy2 e (program a) (joinpath dir (path_name (program a))) = Same_file"
  shows "copy_program e (program a) dir = (Inr (), []) \<and>
         (\<exists>rest. snd (main e a) =
            Ev_mkdir dir
            # Ev_exec (compile_command (program a)
                       (joinpath dir (stem (program a) @ ''_compiled.json'')))
            # rest)"
proof -
  have cp: "copy_program e (program a) dir = (Inr (), [])"
    using assms(5) by (simp add: copy_program_def)
  have mk: "make_output_dir e dir = (Inr (), [Ev_mkdir dir])"
    using assms(4) by (simp add: make_output_dir_def)
  have inp: "\<not> (case program_input a of Some p \<Rightarrow> \<not> is_file e p | None \<Rightarrow> False)"
    using assms(2) by (simp split: option.splits)
  obtain f where m: "main e a =
      and_then (make_output_dir e dir) (\<lambda>_. and_then (copy_program e (program a) dir) (\<lambda>_.
        and_then (compile_cairo_program e (program a)
          (joinpath dir (stem (program a) @ ''_compiled.json''))) f))"
    using assms(1,3) inp by (simp add: main_def Let_def)
  obtain rest where r: "snd (and_then (compile_cairo_program e (program a)
          (joinpath dir (stem (program a) @ ''_compiled.json''))) f)
      = Ev_exec (compile_command (program a)
          (joinpath dir (stem (program a) @ ''_compiled.json''))) # rest"
    using compile_then_first_event by blast
  have "snd (main e a) = Ev_mkdir dir # Ev_exec (compile_command (program a)
          (joinpath dir (stem (program a) @ ''_compiled.json''))) # rest"
    unfolding m by (simp add: and_then_pair_Inr mk cp r)
  with cp show ?thesis by blast
qed

theorem same_file_copy_is_skipped_witness:
  "copy2 same_file_env (program same_file_args)
       (joinpath [''out''] (path_name (program same_file_args))) = Same_file \<and>
   copy_program same_file_env (program same_file_args) [''out''] = (Inr (), []) \<and>
   take 2 (snd (main same_file_env same_file_args)) =
     [Ev_mkdir [''out''],
      Ev_exec (compile_command [''out'', ''fib.cairo''] [''out'', ''fib_compiled.json''])]"
proof -
  have h1: "is_file same_file_env (program same_file_args)"
    by (simp add: same_file_env_def same_file_args_def)
  have h2: "\<forall>p. program_input same_file_args = Some p \<longrightarrow> is_file same_file_env p"
    by (simp add: same_file_args_def)
  have h3: "output_dir same_file_args = Some [''out'']"
    by (simp add: same_file_args_def)
  have h4: "\<not> mkdir_fails same_file_env [''out'']"
    by (simp add: same_file_env_def example_env_def)
  have h5: "copy2 same_file_env (program same_file_args)
       (joinpath [''out''] (path_name (program same_file_args))) = Same_file"
    by (simp add: same_file_env_def same_file_args_def joinpath_def path_name_def)
  show ?thesis
    using same_file_copy_is_skipped [OF h1 h2 h3 h4 h5] h5 main_same_file by simp
qed

end
